theory Spec2Isabelle
  imports Main "HOL-Library.Word"
begin

unbundle bit_operations_syntax

section \<open>The update bootloader of fw\_update.c\<close>

text \<open>
  A shallow embedding of \<^verbatim>\<open>src/fw_update.c\<close>: the session state machine, the command
  processor and the receive-buffer-to-flash pipeline. C's fixed-width integers are words
  (\<^verbatim>\<open>uint8_t\<close> is \<open>8 word\<close>, \<open>uint32_t\<close> and \<open>int\<close> are \<open>32 word\<close>, the latter
  compared with the signed orders \<open><=s\<close> and \<open><s\<close>). The file's global variables are the fields
  of one record that every function takes and returns. A store past the end of the
  256-byte array \<^verbatim>\<open>u_buf\<close> is undefined behaviour in C; the model returns it as the error
  value \<open>Buffer_overrun\<close>. The console output of \<^verbatim>\<open>printk\<close> and the flash unlock of
  \<^verbatim>\<open>fpec_init\<close> change nothing that the file reads and are left out.
\<close>

subsection \<open>Constants\<close>

type_synonym u8 = "8 word"
type_synonym u16 = "16 word"
type_synonym u32 = "32 word"

definition FIRMWARE_START :: u32 where
  "FIRMWARE_START = 0x08002000"

definition FIRMWARE_END :: u32 where
  "FIRMWARE_END = 0x08010000"

text \<open>
  Modelled from the spec: the header that defines the command and acknowledgement codes is
  absent. Section 6 of the specification gives the reference values: command id 1 is
  get-info and 2 is update; status 0 is ok and 1 is bad command.
\<close>

definition CMD_GET_INFO :: u8 where
  "CMD_GET_INFO = 1"

definition CMD_UPDATE :: u8 where
  "CMD_UPDATE = 2"

definition ACK_OKAY :: u8 where
  "ACK_OKAY = 0"

definition ACK_BAD_COMMAND :: u8 where
  "ACK_BAD_COMMAND = 1"

text \<open>
  Modelled from the spec: the definition of \<^verbatim>\<open>FLASH_PAGE_SIZE\<close> is absent and the
  specification only speaks of erase-by-page. The model takes the 1 KiB page of the
  flash part whose addresses \<^verbatim>\<open>FIRMWARE_START\<close> and \<^verbatim>\<open>FIRMWARE_END\<close> are.
\<close>

definition FLASH_PAGE_SIZE :: u32 where
  "FLASH_PAGE_SIZE = 1024"

subsection \<open>Data model\<close>

datatype session_state = ST_inactive | ST_command_wait | ST_update

text \<open>
  \<^verbatim>\<open>struct gw_info\<close>: its declaration is absent; the fields are those that the file
  assigns. How the structure is laid out in memory is a parameter of the model
  (\<open>gw_info_bytes\<close> below).
\<close>

record gw_info_t =
  fw_major :: u8
  fw_minor :: u8
  max_rev :: u8
  max_cmd :: u8
  sample_freq :: u32

text \<open>What the file calls on the transport and on the flash controller, in call order.\<close>

datatype io_event =
    Tx "u8 list"
  | Erase u32
  | Write u32 "u8 list"

datatype error = Buffer_overrun

text \<open>
  The globals of the file (\<^verbatim>\<open>update.len\<close> and \<^verbatim>\<open>update.cur\<close> are the fields
  \<open>update_len\<close> and \<open>update_cur\<close>), the flash memory as a function from addresses to bytes,
  and the log of external calls.
\<close>

record sys =
  state :: session_state
  u_buf :: "u8 list"
  u_prod :: u32
  pa14_strapped :: bool
  gw_info :: gw_info_t
  update_len :: u32
  update_cur :: u32
  flash :: "u32 \<Rightarrow> u8"
  io_log :: "io_event list"

text \<open>
  The parts of the firmware that the file uses and that are defined elsewhere: the
  checksum routine, the byte image of \<^verbatim>\<open>struct gw_info\<close> that \<^verbatim>\<open>memcpy\<close> copies
  (\<^verbatim>\<open>sizeof(gw_info)\<close> bytes), and the version constants \<^verbatim>\<open>fw_major\<close> and \<^verbatim>\<open>fw_minor\<close>.
\<close>

record platform =
  crc16_ccitt :: "u8 list \<Rightarrow> u16 \<Rightarrow> u16"
  gw_info_bytes :: "gw_info_t \<Rightarrow> u8 list"
  build_fw_major :: u8
  build_fw_minor :: u8

text \<open>
  Modelled from the spec: the Transport Adapter is absent. One poll tick sees the packet
  pending on the receive endpoint, if any, and whether the transmit endpoint is free.
  \<^verbatim>\<open>ep_rx_ready\<close> is the non-blocking "bytes available" query: the length of the pending
  packet as an \<^verbatim>\<open>int\<close>, negative when there is none; \<^verbatim>\<open>usb_read\<close> transfers that many
  bytes of it.
\<close>

record tick_in =
  rx_pkt :: "u8 list option"
  tx_ready :: bool

definition ep_rx_ready :: "tick_in \<Rightarrow> u32" where
  "ep_rx_ready i = (case rx_pkt i of None \<Rightarrow> - 1 | Some p \<Rightarrow> of_nat (length p))"

definition usb_read :: "tick_in \<Rightarrow> u32 \<Rightarrow> u8 list" where
  "usb_read i len = (case rx_pkt i of None \<Rightarrow> [] | Some p \<Rightarrow> take (unat len) p)"

definition ep_tx_ready :: "tick_in \<Rightarrow> bool" where
  "ep_tx_ready i = tx_ready i"

subsection \<open>Buffer accesses\<close>

text \<open>
  Storing \<open>src\<close> into the array at index \<open>off\<close> (\<^verbatim>\<open>usb_read\<close>, \<^verbatim>\<open>memcpy\<close> and
  \<^verbatim>\<open>memset\<close> with destination \<^verbatim>\<open>&u_buf[off]\<close>), and loading \<open>n\<close> bytes from index
  \<open>off\<close>. Both fail when the range leaves the array.
\<close>

definition buf_store :: "nat \<Rightarrow> u8 list \<Rightarrow> u8 list \<Rightarrow> error + u8 list" where
  "buf_store off src buf =
     (if off + length src \<le> length buf
      then Inr (take off buf @ src @ drop (off + length src) buf)
      else Inl Buffer_overrun)"

definition buf_load :: "nat \<Rightarrow> nat \<Rightarrow> u8 list \<Rightarrow> error + u8 list" where
  "buf_load off n buf =
     (if off + n \<le> length buf then Inr (take n (drop off buf)) else Inl Buffer_overrun)"

text \<open>\<^verbatim>\<open>*(uint32_t *)&u_buf[2]\<close> on the little-endian target.\<close>

definition le32 :: "u8 \<Rightarrow> u8 \<Rightarrow> u8 \<Rightarrow> u8 \<Rightarrow> u32" where
  "le32 b0 b1 b2 b3 =
     ucast b0 OR push_bit 8 (ucast b1) OR push_bit 16 (ucast b2) OR push_bit 24 (ucast b3)"

subsection \<open>Flash primitives\<close>

text \<open>
  Modelled from the spec: the flash driver is absent. \<^verbatim>\<open>fpec_page_erase\<close> is
  erase-by-page: the \<^verbatim>\<open>FLASH_PAGE_SIZE\<close> bytes from the page address read 0xff afterwards.
  \<^verbatim>\<open>fpec_write\<close> is write-by-offset: the bytes given appear from the address given.
  \<^verbatim>\<open>mem_read\<close> is the byte range that \<^verbatim>\<open>crc16_ccitt\<close> reads through its pointer
  argument.
\<close>

definition fpec_page_erase :: "u32 \<Rightarrow> sys \<Rightarrow> sys" where
  "fpec_page_erase p s =
     s\<lparr>flash := (\<lambda>a. if a - p < FLASH_PAGE_SIZE then 0xff else flash s a),
       io_log := io_log s @ [Erase p]\<rparr>"

definition fpec_write :: "u8 list \<Rightarrow> u32 \<Rightarrow> sys \<Rightarrow> sys" where
  "fpec_write src addr s =
     s\<lparr>flash := (\<lambda>a. if unat (a - addr) < length src then src ! unat (a - addr) else flash s a),
       io_log := io_log s @ [Write addr src]\<rparr>"

definition mem_read :: "u32 \<Rightarrow> u32 \<Rightarrow> (u32 \<Rightarrow> u8) \<Rightarrow> u8 list" where
  "mem_read addr len m = map (\<lambda>k. m (addr + of_nat k)) [0..<unat len]"

subsection \<open>The functions of the file\<close>

definition update_reset :: "sys \<Rightarrow> sys" where
  "update_reset s = s\<lparr>state := ST_inactive\<rparr>"

definition update_configure :: "sys \<Rightarrow> sys" where
  "update_configure s = s\<lparr>state := ST_command_wait, u_prod := 0\<rparr>"

text \<open>
  \<^verbatim>\<open>end_command(ack, ack_len)\<close>; both callers pass \<^verbatim>\<open>u_buf\<close> as \<^verbatim>\<open>ack\<close>, with a length
  of at most 34.
\<close>

definition end_command :: "nat \<Rightarrow> sys \<Rightarrow> sys" where
  "end_command ack_len s =
     s\<lparr>io_log := io_log s @ [Tx (take ack_len (u_buf s))], u_prod := 0\<rparr>"

text \<open>The loop of \<^verbatim>\<open>erase_old_firmware\<close>, from page address \<open>p\<close> on.\<close>

function erase_from :: "u32 \<Rightarrow> sys \<Rightarrow> sys" where
  "erase_from p s =
     (if p < FIRMWARE_END then erase_from (p + FLASH_PAGE_SIZE) (fpec_page_erase p s) else s)"
  by pat_completeness auto
termination
proof (relation "measure (\<lambda>(p, s). unat FIRMWARE_END - unat p)")
  show "wf (measure (\<lambda>(p, s). unat FIRMWARE_END - unat p))"
    by simp
next
  fix p :: u32 and s :: sys
  assume lt: "p < FIRMWARE_END"
  then have "unat p < 134283264"
    by (simp add: FIRMWARE_END_def word_less_nat_alt)
  then have "unat (p + FLASH_PAGE_SIZE) = unat p + 1024"
    by (simp add: FLASH_PAGE_SIZE_def unat_word_ariths)
  with lt show "((p + FLASH_PAGE_SIZE, fpec_page_erase p s), (p, s))
      \<in> measure (\<lambda>(p, s). unat FIRMWARE_END - unat p)"
    by (simp add: FIRMWARE_END_def word_less_nat_alt)
qed

definition erase_old_firmware :: "sys \<Rightarrow> sys" where
  "erase_old_firmware s = erase_from FIRMWARE_START s"

definition update_prep :: "u32 \<Rightarrow> sys \<Rightarrow> sys" where
  "update_prep len s =
     (erase_old_firmware s)\<lparr>state := ST_update, update_cur := 0, update_len := len\<rparr>"

text \<open>
  \<^verbatim>\<open>update_continue\<close> in its three steps. First the unguarded receive of lines 86 to 89:
  whenever \<^verbatim>\<open>ep_rx_ready\<close> is not negative the packet is stored at \<^verbatim>\<open>&u_buf[u_prod]\<close>.
\<close>

definition update_continue_rx :: "tick_in \<Rightarrow> sys \<Rightarrow> error + sys" where
  "update_continue_rx i s =
     (let len = ep_rx_ready i in
      if 0 <=s len
      then (case buf_store (unat (u_prod s)) (usb_read i len) (u_buf s) of
              Inl e \<Rightarrow> Inl e
            | Inr b \<Rightarrow> Inr (s\<lparr>u_buf := b, u_prod := u_prod s + len\<rparr>))
      else Inr s)"

text \<open>
  The flush of lines 91 to 97. \<open>len\<close> and \<open>nr\<close> are \<^verbatim>\<open>int\<close>s; \<^verbatim>\<open>fpec_write\<close> reads
  \<open>nr\<close> bytes from the start of the array and \<^verbatim>\<open>memcpy\<close> moves the \<^verbatim>\<open>u_prod\<close> bytes
  that are left from index \<open>nr\<close> to the front.
\<close>

definition update_continue_flush :: "sys \<Rightarrow> error + sys" where
  "update_continue_flush s =
     (let len = u_prod s in
      if 2 <=s len
      then (let nr = len AND NOT 1 in
            case buf_load 0 (unat nr) (u_buf s) of
              Inl e \<Rightarrow> Inl e
            | Inr chunk \<Rightarrow>
                (let s1 = fpec_write chunk (FIRMWARE_START + update_cur s) s;
                     s2 = s1\<lparr>update_cur := update_cur s1 + nr\<rparr>;
                     s3 = s2\<lparr>u_prod := u_prod s2 - nr\<rparr>
                 in case buf_load (unat nr) (unat (u_prod s3)) (u_buf s3) of
                      Inl e \<Rightarrow> Inl e
                    | Inr rest \<Rightarrow>
                        (case buf_store 0 rest (u_buf s3) of
                           Inl e \<Rightarrow> Inl e
                         | Inr b \<Rightarrow> Inr (s3\<lparr>u_buf := b\<rparr>))))
      else Inr s)"

text \<open>The completion test and the finalization of lines 99 to 107.\<close>

definition update_continue_final :: "platform \<Rightarrow> tick_in \<Rightarrow> sys \<Rightarrow> sys" where
  "update_continue_final pf i s =
     (if update_len s \<le> update_cur s \<and> ep_tx_ready i
      then (let crc = crc16_ccitt pf (mem_read FIRMWARE_START (update_len s) (flash s)) 0xffff;
                s1 = s\<lparr>u_buf := (u_buf s)[0 := (if crc \<noteq> 0 then 1 else 0)]\<rparr>;
                s2 = s1\<lparr>state := ST_command_wait\<rparr>;
                s3 = end_command 1 s2
            in if crc \<noteq> 0 then erase_old_firmware s3 else s3)
      else s)"

definition update_continue :: "platform \<Rightarrow> tick_in \<Rightarrow> sys \<Rightarrow> error + sys" where
  "update_continue pf i s =
     (case update_continue_rx i s of
        Inl e \<Rightarrow> Inl e
      | Inr s1 \<Rightarrow>
          (case update_continue_flush s1 of
             Inl e \<Rightarrow> Inl e
           | Inr s2 \<Rightarrow> Inr (update_continue_final pf i s2)))"

text \<open>
  \<^verbatim>\<open>process_command\<close>. The label \<^verbatim>\<open>bad_command\<close> stores the status and joins \<^verbatim>\<open>out\<close>
  with the response size still 2.
\<close>

definition bad_command :: "sys \<Rightarrow> sys" where
  "bad_command s = end_command 2 (s\<lparr>u_buf := (u_buf s)[1 := ACK_BAD_COMMAND]\<rparr>)"

definition process_command :: "platform \<Rightarrow> sys \<Rightarrow> error + sys" where
  "process_command pf s =
     (let cmd = u_buf s ! 0;
          len = u_buf s ! 1
      in if cmd = CMD_GET_INFO
         then (let idx = u_buf s ! 2 in
               if len \<noteq> 3 then Inr (bad_command s)
               else if idx \<noteq> 0 then Inr (bad_command s)
               else (case buf_store 2 (replicate 32 0) (u_buf s) of
                       Inl e \<Rightarrow> Inl e
                     | Inr b0 \<Rightarrow>
                         (let g = (gw_info s)\<lparr>fw_major := build_fw_major pf,
                                               fw_minor := build_fw_minor pf,
                                               sample_freq := (if pa14_strapped s then 1 else 0)\<rparr>
                          in case buf_store 2 (gw_info_bytes pf g) b0 of
                               Inl e \<Rightarrow> Inl e
                             | Inr b1 \<Rightarrow>
                                 Inr (end_command (2 + 32)
                                        (s\<lparr>gw_info := g, u_buf := b1[1 := ACK_OKAY]\<rparr>)))))
         else if cmd = CMD_UPDATE
         then (let u_len = le32 (u_buf s ! 2) (u_buf s ! 3) (u_buf s ! 4) (u_buf s ! 5) in
               if len \<noteq> 6 then Inr (bad_command s)
               else if u_len AND 3 \<noteq> 0 then Inr (bad_command s)
               else (let s1 = update_prep u_len s in
                     Inr (end_command 2 (s1\<lparr>u_buf := (u_buf s1)[1 := ACK_OKAY]\<rparr>))))
         else Inr (bad_command s))"

text \<open>
  \<^verbatim>\<open>update_process\<close>: one poll tick. In \<^verbatim>\<open>ST_command_wait\<close> the receive is guarded by
  the room left; \<^verbatim>\<open>sizeof(u_buf) - u_prod\<close> is unsigned, and so is the comparison of
  \<^verbatim>\<open>u_prod\<close> with \<^verbatim>\<open>u_buf[1]\<close>.
\<close>

definition command_wait_rx :: "tick_in \<Rightarrow> sys \<Rightarrow> error + sys" where
  "command_wait_rx i s =
     (let len = ep_rx_ready i in
      if 0 <=s len \<and> len < 256 - u_prod s
      then (case buf_store (unat (u_prod s)) (usb_read i len) (u_buf s) of
              Inl e \<Rightarrow> Inl e
            | Inr b \<Rightarrow> Inr (s\<lparr>u_buf := b, u_prod := u_prod s + len\<rparr>))
      else Inr s)"

definition update_process :: "platform \<Rightarrow> tick_in \<Rightarrow> sys \<Rightarrow> error + sys" where
  "update_process pf i s =
     (case state s of
        ST_command_wait \<Rightarrow>
          (case command_wait_rx i s of
             Inl e \<Rightarrow> Inl e
           | Inr s1 \<Rightarrow>
               if 2 \<le> u_prod s1 \<and> ucast (u_buf s1 ! 1) \<le> u_prod s1 \<and> ep_tx_ready i
               then process_command pf s1
               else Inr s1)
      | ST_update \<Rightarrow> update_continue pf i s
      | ST_inactive \<Rightarrow> Inr s)"

subsection \<open>Events and runs\<close>

text \<open>
  The main loop alternates \<^verbatim>\<open>usb_process\<close>, which may call the \<^verbatim>\<open>reset\<close> and
  \<^verbatim>\<open>configure\<close> callbacks of \<^verbatim>\<open>usb_cdc_acm_ops\<close>, with \<^verbatim>\<open>update_process\<close>. A run is a
  list of such events; it stops at the first error.
\<close>

datatype event = Reset | Configure | Poll tick_in

fun step :: "platform \<Rightarrow> event \<Rightarrow> sys \<Rightarrow> error + sys" where
  "step pf Reset s = Inr (update_reset s)"
| "step pf Configure s = Inr (update_configure s)"
| "step pf (Poll i) s = update_process pf i s"

fun run :: "platform \<Rightarrow> event list \<Rightarrow> sys \<Rightarrow> error + sys" where
  "run pf [] s = Inr s"
| "run pf (e # es) s = (case step pf e s of Inl x \<Rightarrow> Inl x | Inr s1 \<Rightarrow> run pf es s1)"

text \<open>
  The state at boot: the initialised data (\<^verbatim>\<open>state\<close> and \<^verbatim>\<open>gw_info\<close>), the zeroed BSS,
  the strap reading taken in \<^verbatim>\<open>main\<close>, and whatever the flash holds.
\<close>

definition boot :: "bool \<Rightarrow> (u32 \<Rightarrow> u8) \<Rightarrow> sys" where
  "boot strapped fl =
     \<lparr>state = ST_inactive,
      u_buf = replicate 256 0,
      u_prod = 0,
      pa14_strapped = strapped,
      gw_info = \<lparr>fw_major = 0, fw_minor = 0, max_rev = 0, max_cmd = CMD_UPDATE,
                 sample_freq = 0\<rparr>,
      update_len = 0,
      update_cur = 0,
      flash = fl,
      io_log = []\<rparr>"

subsection \<open>Concrete data for the statements\<close>

text \<open>
  The page addresses that \<^verbatim>\<open>erase_old_firmware\<close> visits: 56 pages of 1 KiB from
  \<^verbatim>\<open>FIRMWARE_START\<close> up to \<^verbatim>\<open>FIRMWARE_END\<close>.
\<close>

definition firmware_pages :: "u32 list" where
  "firmware_pages = map (\<lambda>j. FIRMWARE_START + FLASH_PAGE_SIZE * of_nat j) [0..<56]"

text \<open>
  A platform and an idle session for concrete runs: an additive checksum stands in for
  \<^verbatim>\<open>crc16_ccitt\<close>, the structure image is four bytes long, and \<open>demo_idle frame\<close> is the
  configured session with \<open>frame\<close> received at the start of the buffer.
\<close>

definition demo_platform :: platform where
  "demo_platform =
     \<lparr>crc16_ccitt = (\<lambda>bs seed. fold (\<lambda>b c. c + ucast b) bs seed),
      gw_info_bytes = (\<lambda>g. [fw_major g, fw_minor g, max_rev g, max_cmd g]),
      build_fw_major = 0,
      build_fw_minor = 1\<rparr>"

definition demo_idle :: "u8 list \<Rightarrow> sys" where
  "demo_idle frame =
     (update_configure (boot True (\<lambda>a. 0)))
       \<lparr>u_buf := frame @ replicate (256 - length frame) 0, u_prod := of_nat (length frame)\<rparr>"

section \<open>Auxiliary facts\<close>

subsection \<open>Words\<close>

lemma sint_u32: "sint (u::u32) = (uint u + 2 ^ 31) mod 2 ^ 32 - 2 ^ 31"
  using int_word_sint [where 'a = 32, of "uint u"] by simp

lemma uint_unat_less: "(uint (u::u32) < int n) = (unat u < n)"
  by (simp only: uint_nat of_nat_less_iff)

lemma uint_unat_le: "(int n \<le> uint (u::u32)) = (n \<le> unat u)"
  by (simp only: uint_nat of_nat_le_iff)

lemma sle0: "(0 <=s (u::u32)) = (unat u < 2 ^ 31)"
proof -
  have b: "uint u < 2 ^ 32" "0 \<le> uint u" using uint_bounded [of u] by simp_all
  have "(0 \<le> sint u) = (uint u < 2 ^ 31)"
  proof (cases "uint u < 2 ^ 31")
    case True 
    then have "(uint u + 2 ^ 31) mod 2 ^ 32 = uint u + 2 ^ 31" using b by simp
    then show ?thesis using True b by (simp add: sint_u32)
  next
    case False
    then have "(uint u + 2 ^ 31) mod 2 ^ 32 = uint u + 2 ^ 31 - 2 ^ 32"
      using b by (simp add: mod_pos_geq)
    then show ?thesis using False b by (simp add: sint_u32)
  qed
  then show ?thesis
    using uint_unat_less [of u "2 ^ 31"] by (simp add: word_sle_eq)
qed

lemma sle2: "(2 <=s (u::u32)) = (2 \<le> unat u \<and> unat u < 2 ^ 31)"
proof -
  have b: "uint u < 2 ^ 32" "0 \<le> uint u" using uint_bounded [of u] by simp_all
  have "(2 \<le> sint u) = (2 \<le> uint u \<and> uint u < 2 ^ 31)"
  proof (cases "uint u < 2 ^ 31")
    case True 
    then have "(uint u + 2 ^ 31) mod 2 ^ 32 = uint u + 2 ^ 31" using b by simp
    then show ?thesis using True b by (simp add: sint_u32)
  next
    case False
    then have "(uint u + 2 ^ 31) mod 2 ^ 32 = uint u + 2 ^ 31 - 2 ^ 32"
      using b by (simp add: mod_pos_geq)
    then show ?thesis using False b by (simp add: sint_u32)
  qed
  then show ?thesis
    using uint_unat_less [of u "2 ^ 31"] uint_unat_le [of 2 u] by (simp add: word_sle_eq)
qed

lemma and_not1: "(u::u32) AND NOT 1 = u - u mod 2"
proof -
  have "u - (u AND 1) = u AND NOT (u AND 1)"
    by (rule disjunctive_diff_eq_and_not) (auto simp: bit_eq_iff bit_simps)
  also have "\<dots> = u AND NOT 1"
    by (auto simp: bit_eq_iff bit_simps)
  finally show ?thesis by (simp add: and_one_eq)
qed

lemma unat_mod2: "unat ((u::u32) mod 2) = unat u mod 2"
  by (simp add: unat_mod)

lemma unat_and_not1: "unat ((u::u32) AND NOT 1) = 2 * (unat u div 2)"
proof -
  have le: "u mod 2 \<le> u" by (simp add: word_le_nat_alt unat_mod2)
  have "unat (u - u mod 2) = unat u - unat (u mod 2)"
    using le by (rule unat_sub)
  also have "\<dots> = unat u - unat u mod 2" by (simp only: unat_mod2)
  also have "\<dots> = 2 * (unat u div 2)" by presburger
  finally show ?thesis by (simp only: and_not1)
qed

lemma unat_rest: "unat ((u::u32) - (u AND NOT 1)) = unat u mod 2"
  by (simp only: and_not1 diff_diff_eq2 add_diff_cancel_left' unat_mod2) 

lemma and_not1_of_nat: "(u::u32) AND NOT 1 = of_nat (2 * (unat u div 2))"
  using unat_and_not1 [of u] by (metis of_nat_unat ucast_id)

lemma le32_zero [simp]: "le32 0 0 0 0 = 0"
  by (simp add: le32_def)


lemma ucast_le: "(ucast (b::u8) \<le> (u::u32)) = (unat b \<le> unat u)"
proof -
  have "unat b < 2 ^ 32" using unsigned_less [of b, where 'a = nat] by simp
  then have "unat (ucast b :: u32) = unat b"
    by (simp add: unsigned_ucast_eq take_bit_nat_eq_self)
  then show ?thesis by (simp add: word_le_nat_alt)
qed

subsection \<open>Erasing the firmware region\<close>

lemma erase_key:
  fixes p a :: u32
  assumes "unat p = 134225920 + 1024 * k" "k < 56"
  shows "(p + 1024 \<le> a \<and> a < 0x08010000 \<or> a - p < 1024) = (p \<le> a \<and> a < 0x08010000)"
proof -
  have p1: "unat (p + 1024) = unat p + 1024"
    using assms by (simp add: unat_word_ariths)
  show ?thesis
  proof (cases "p \<le> a")
    case True
    then have "unat (a - p) = unat a - unat p"
      by (rule unat_sub)
    with True p1 assms show ?thesis
      unfolding word_le_nat_alt word_less_nat_alt by simp arith
  next
    case False
    then have "unat (a - p) = unat a + 2 ^ 32 - unat p"
      by (simp add: unat_sub_if' word_le_nat_alt)
    with False p1 assms show ?thesis
      unfolding word_le_nat_alt word_less_nat_alt by simp
  qed
qed

lemma erase_from_frame:
  "erase_from p s = s\<lparr>flash := flash (erase_from p s), io_log := io_log (erase_from p s)\<rparr>"
proof (induction p s rule: erase_from.induct)
  case (1 p s)
  show ?case
  proof (cases "p < FIRMWARE_END")
    case True
    let ?s1 = "fpec_page_erase p s"
    let ?t = "erase_from (p + FLASH_PAGE_SIZE) ?s1"
    have e: "erase_from p s = ?t"
      using True by (subst erase_from.simps) simp
    have "?t = ?s1\<lparr>flash := flash ?t, io_log := io_log ?t\<rparr>"
      by (rule 1 [OF True])
    also have "\<dots> = s\<lparr>flash := flash ?t, io_log := io_log ?t\<rparr>"
      by (simp add: fpec_page_erase_def)
    finally show ?thesis
      by (simp only: e)
  next
    case False
    then have e: "erase_from p s = s"
      by (subst erase_from.simps) simp
    show ?thesis
      by (simp only: e) simp
  qed
qed

lemma erase_from_flash:
  assumes "unat p = unat FIRMWARE_START + 1024 * k" "k \<le> 56"
  shows "flash (erase_from p s) a = (if p \<le> a \<and> a < FIRMWARE_END then 0xff else flash s a)"
  using assms
proof (induction p s arbitrary: k rule: erase_from.induct)
  case (1 p s)
  show ?case
  proof (cases "p < FIRMWARE_END")
    case True
    then have k: "k < 56"
      using 1(2,3) by (simp add: word_less_nat_alt FIRMWARE_END_def FIRMWARE_START_def)
    have up: "unat (p + FLASH_PAGE_SIZE) = unat FIRMWARE_START + 1024 * Suc k"
      using 1(2) k by (simp add: FLASH_PAGE_SIZE_def unat_word_ariths FIRMWARE_START_def)
    have ih: "flash (erase_from (p + FLASH_PAGE_SIZE) (fpec_page_erase p s)) a
       = (if p + FLASH_PAGE_SIZE \<le> a \<and> a < FIRMWARE_END then 0xff
          else flash (fpec_page_erase p s) a)"
      using 1(1) [OF True up] k by simp
    have key: "(p + FLASH_PAGE_SIZE \<le> a \<and> a < FIRMWARE_END \<or> a - p < FLASH_PAGE_SIZE)
        = (p \<le> a \<and> a < FIRMWARE_END)"
      using erase_key [of p k a] 1(2) k
      by (simp add: FLASH_PAGE_SIZE_def FIRMWARE_END_def FIRMWARE_START_def)
    show ?thesis using True ih key
      by (subst erase_from.simps) (auto simp add: fpec_page_erase_def)
  next
    case False
    then show ?thesis by (subst erase_from.simps) auto
  qed
qed

lemma erase_from_log:
  assumes "unat p = unat FIRMWARE_START + 1024 * k" "k \<le> 56"
  shows "io_log (erase_from p s)
    = io_log s @ map Erase (map (\<lambda>j. FIRMWARE_START + FLASH_PAGE_SIZE * of_nat j) [k..<56])"
  using assms
proof (induction p s arbitrary: k rule: erase_from.induct)
  case (1 p s)
  have "p = of_nat (unat p)" by simp
  also have "\<dots> = of_nat (unat FIRMWARE_START + 1024 * k)" by (simp only: 1(2))
  finally have pk: "p = FIRMWARE_START + FLASH_PAGE_SIZE * of_nat k"
    by (simp add: FLASH_PAGE_SIZE_def)
  show ?case
  proof (cases "p < FIRMWARE_END")
    case True
    then have k: "k < 56"
      using 1(2,3) by (simp add: word_less_nat_alt FIRMWARE_END_def FIRMWARE_START_def)
    have up: "unat (p + FLASH_PAGE_SIZE) = unat FIRMWARE_START + 1024 * Suc k"
      using 1(2) k by (simp add: FLASH_PAGE_SIZE_def unat_word_ariths FIRMWARE_START_def)
    have ih: "io_log (erase_from (p + FLASH_PAGE_SIZE) (fpec_page_erase p s))
       = io_log (fpec_page_erase p s)
         @ map Erase (map (\<lambda>j. FIRMWARE_START + FLASH_PAGE_SIZE * of_nat j) [Suc k..<56])"
      using 1(1) [OF True up] k by simp
    show ?thesis using True ih k pk
      by (subst erase_from.simps) (simp add: fpec_page_erase_def upt_conv_Cons)
  next
    case False
    then have "k = 56"
      using 1(2,3) by (simp add: word_less_nat_alt FIRMWARE_END_def FIRMWARE_START_def)
    then show ?thesis using False by (subst erase_from.simps) auto
  qed
qed

lemma erase_old_firmware_eq:
  "erase_old_firmware s =
     s\<lparr>flash := (\<lambda>a. if FIRMWARE_START \<le> a \<and> a < FIRMWARE_END then 0xff else flash s a),
       io_log := io_log s @ map Erase firmware_pages\<rparr>"
proof -
  have f: "flash (erase_from FIRMWARE_START s)
      = (\<lambda>a. if FIRMWARE_START \<le> a \<and> a < FIRMWARE_END then 0xff else flash s a)"
  proof
    fix a
    show "flash (erase_from FIRMWARE_START s) a
        = (if FIRMWARE_START \<le> a \<and> a < FIRMWARE_END then 0xff else flash s a)"
      by (rule erase_from_flash [of _ 0]) simp_all
  qed
  have l: "io_log (erase_from FIRMWARE_START s) = io_log s @ map Erase firmware_pages"
    unfolding firmware_pages_def by (rule erase_from_log) simp_all
  show ?thesis
    unfolding erase_old_firmware_def
    by (subst erase_from_frame) (simp only: f l)
qed

lemma length_firmware_pages: "length firmware_pages = 56"
  by (simp add: firmware_pages_def)

subsection \<open>The steps of one tick\<close>

lemma ep_rx_ready_None: "rx_pkt i = None \<Longrightarrow> \<not> 0 <=s ep_rx_ready i"
  by (simp add: ep_rx_ready_def sle0 unsigned_minus_1_eq_mask mask_eq_exp_minus_1)

lemma unat_of_nat_u32: "n < 2 ^ 32 \<Longrightarrow> unat (of_nat n :: u32) = n"
  by (simp add: unat_of_nat)

lemma ep_rx_ready_Some:
  "rx_pkt i = Some p \<Longrightarrow> length p < 2 ^ 31 \<Longrightarrow>
     0 <=s ep_rx_ready i \<and> unat (ep_rx_ready i) = length p
     \<and> usb_read i (ep_rx_ready i) = p"
  by (simp add: ep_rx_ready_def usb_read_def sle0 unat_of_nat_u32)

lemma usb_read_length:
  "rx_pkt i = Some p \<Longrightarrow> length (usb_read i (ep_rx_ready i)) = unat (ep_rx_ready i)"
proof -
  assume s: "rx_pkt i = Some p"
  have "unat (of_nat (length p) :: u32) \<le> length p"
    by (simp only: unat_of_nat mod_less_eq_dividend)
  then show ?thesis using s by (simp add: ep_rx_ready_def usb_read_def)
qed

lemma update_continue_rx_None:
  "rx_pkt i = None \<Longrightarrow> update_continue_rx i s = Inr s"
  by (simp add: update_continue_rx_def Let_def ep_rx_ready_None)

lemma update_continue_rx_Some:
  assumes "rx_pkt i = Some p" "length p < 2 ^ 31"
  shows "update_continue_rx i s =
     (if unat (u_prod s) + length p \<le> length (u_buf s)
      then Inr (s\<lparr>u_buf := take (unat (u_prod s)) (u_buf s) @ p
                            @ drop (unat (u_prod s) + length p) (u_buf s),
                  u_prod := u_prod s + of_nat (length p)\<rparr>)
      else Inl Buffer_overrun)"
  using ep_rx_ready_Some [OF assms] assms
  by (simp add: update_continue_rx_def Let_def buf_store_def) (simp add: ep_rx_ready_def)

lemma update_continue_flush_small:
  "unat (u_prod s) < 2 \<Longrightarrow> update_continue_flush s = Inr s"
  by (simp add: update_continue_flush_def Let_def sle2)

lemma update_continue_flush_eq:
  assumes "2 \<le> unat (u_prod s)" "unat (u_prod s) \<le> length (u_buf s)"
    "length (u_buf s) < 2 ^ 31"
  shows "update_continue_flush s =
     Inr (s\<lparr>flash := (\<lambda>a. if unat (a - (FIRMWARE_START + update_cur s)) < 2 * (unat (u_prod s) div 2)
                           then u_buf s ! unat (a - (FIRMWARE_START + update_cur s))
                           else flash s a),
            io_log := io_log s @ [Write (FIRMWARE_START + update_cur s)
                                    (take (2 * (unat (u_prod s) div 2)) (u_buf s))],
            update_cur := update_cur s + of_nat (2 * (unat (u_prod s) div 2)),
            u_prod := of_nat (unat (u_prod s) mod 2),
            u_buf := take (unat (u_prod s) mod 2) (drop (2 * (unat (u_prod s) div 2)) (u_buf s))
                     @ drop (unat (u_prod s) mod 2) (u_buf s)\<rparr>)"
proof -
  let ?u = "u_prod s"
  let ?n = "2 * (unat ?u div 2)"
  let ?r = "unat ?u mod 2"
  have s2: "2 <=s ?u" using assms by (simp add: sle2)
  have n: "unat (?u AND - 2) = ?n" using unat_and_not1 [of ?u] by simp
  have r: "unat (?u - (?u AND - 2)) = ?r" using unat_rest [of ?u] by simp
  have nw: "?u AND - 2 = of_nat ?n" using and_not1_of_nat [of ?u] by simp
  have rw: "?u - (?u AND - 2) = of_nat ?r" using r by (metis of_nat_unat ucast_id)
  have nw2: "?u AND - 2 = 2 * of_nat (unat ?u div 2)" using nw by simp
  have rw2: "?u - 2 * of_nat (unat ?u div 2) = of_nat ?r" using rw unfolding nw2 .
  have n2: "unat (2 * of_nat (unat ?u div 2) :: u32) = ?n" using n unfolding nw2 .
  have r2: "unat (of_nat ?r :: u32) = ?r" using r unfolding rw .
  have le1: "?n \<le> length (u_buf s)" using assms by simp
  have le2: "?n + ?r \<le> length (u_buf s)" using assms by simp
  have le3: "?r \<le> length (u_buf s)" using assms by simp
  have le4: "?r \<le> length (u_buf s) - ?n" using le2 by arith
  have fl: "(\<lambda>a. if unat (a - (FIRMWARE_START + update_cur s)) < ?n
                 then take ?n (u_buf s) ! unat (a - (FIRMWARE_START + update_cur s))
                 else flash s a)
      = (\<lambda>a. if unat (a - (FIRMWARE_START + update_cur s)) < ?n
                 then u_buf s ! unat (a - (FIRMWARE_START + update_cur s))
                 else flash s a)"
    by (auto simp add: fun_eq_iff)
  show ?thesis
    using s2 le1 le2 le3 le4
    by (simp add: update_continue_flush_def Let_def buf_load_def buf_store_def fpec_write_def
        n2 r2 min_absorb2 fl nw2 rw2)
qed

subsection \<open>Command processing\<close>

lemma and3_dvd: "(w AND 3 = 0) = (4 dvd unat (w::u32))"
  using and_mask_dvd_nat [of 2 w] by (simp add: mask_eq_exp_minus_1)

lemma take2_update:
  assumes "2 \<le> length b"
  shows "take 2 (b[Suc 0 := x]) = [b ! 0, x]"
proof -
  obtain b0 b1 bs where b: "b = b0 # b1 # bs"
    using assms by (cases b; cases "tl b") auto
  show ?thesis by (simp add: b)
qed

lemma bad_command_eq:
  "2 \<le> length (u_buf s) \<Longrightarrow>
   bad_command s = s\<lparr>u_buf := (u_buf s)[1 := ACK_BAD_COMMAND],
                       io_log := io_log s @ [Tx [u_buf s ! 0, ACK_BAD_COMMAND]],
                       u_prod := 0\<rparr>"
  by (simp add: bad_command_def end_command_def take2_update)

lemma update_prep_eq:
  "update_prep len s =
     s\<lparr>flash := (\<lambda>a. if FIRMWARE_START \<le> a \<and> a < FIRMWARE_END then 0xff else flash s a),
       io_log := io_log s @ map Erase firmware_pages,
       state := ST_update, update_cur := 0, update_len := len\<rparr>"
  by (simp add: update_prep_def erase_old_firmware_eq)

lemma process_command_update_reject:
  assumes "u_buf s ! 0 = CMD_UPDATE"
    and "u_buf s ! 1 \<noteq> 6
         \<or> \<not> 4 dvd unat (le32 (u_buf s ! 2) (u_buf s ! 3) (u_buf s ! 4) (u_buf s ! 5))"
  shows "process_command pf s = Inr (bad_command s)"
  using assms
  by (auto simp add: process_command_def Let_def CMD_UPDATE_def CMD_GET_INFO_def and3_dvd)

lemma process_command_update_accept:
  assumes "u_buf s ! 0 = CMD_UPDATE" "u_buf s ! 1 = 6"
    and "4 dvd unat (le32 (u_buf s ! 2) (u_buf s ! 3) (u_buf s ! 4) (u_buf s ! 5))"
    and "2 \<le> length (u_buf s)"
  shows "process_command pf s =
     Inr (s\<lparr>flash := (\<lambda>a. if FIRMWARE_START \<le> a \<and> a < FIRMWARE_END then 0xff else flash s a),
            state := ST_update,
            update_cur := 0,
            update_len := le32 (u_buf s ! 2) (u_buf s ! 3) (u_buf s ! 4) (u_buf s ! 5),
            u_buf := (u_buf s)[1 := ACK_OKAY],
            io_log := io_log s @ map Erase firmware_pages @ [Tx [CMD_UPDATE, ACK_OKAY]],
            u_prod := 0\<rparr>)"
  using assms
  by (simp add: process_command_def Let_def CMD_UPDATE_def CMD_GET_INFO_def and3_dvd
      update_prep_eq end_command_def take2_update)

lemma process_command_unknown:
  assumes "u_buf s ! 0 \<noteq> CMD_UPDATE" "u_buf s ! 0 \<noteq> CMD_GET_INFO"
  shows "process_command pf s = Inr (bad_command s)"
  using assms by (simp add: process_command_def Let_def)

lemma process_command_get_info_reject:
  assumes "u_buf s ! 0 = CMD_GET_INFO" "u_buf s ! 1 \<noteq> 3 \<or> u_buf s ! 2 \<noteq> 0"
  shows "process_command pf s = Inr (bad_command s)"
  using assms by (auto simp add: process_command_def Let_def)

section \<open>The claims\<close>

text \<open>
  C5: an update request (command id \<^verbatim>\<open>CMD_UPDATE\<close>) whose declared frame length is not 6, or
  whose little-endian image length is not a multiple of 4, gets the two-byte response
  \<open>[CMD_UPDATE, ACK_BAD_COMMAND]\<close>. Nothing else is sent and nothing is erased or written (the
  log grows by that one transmission and the flash is the same), the session state and the
  update counters are what they were, and the fill-count is reset to 0.
\<close>

theorem update_bad_length_rejected:
  assumes "length (u_buf s) = 256" and "u_buf s ! 0 = CMD_UPDATE"
    and "u_buf s ! 1 \<noteq> 6
         \<or> \<not> 4 dvd unat (le32 (u_buf s ! 2) (u_buf s ! 3) (u_buf s ! 4) (u_buf s ! 5))"
  shows "process_command pf s =
     Inr (s\<lparr>u_buf := (u_buf s)[1 := ACK_BAD_COMMAND],
            io_log := io_log s @ [Tx [CMD_UPDATE, ACK_BAD_COMMAND]],
            u_prod := 0\<rparr>)"
  using assms process_command_update_reject [of s pf] bad_command_eq [of s]
  by simp

theorem update_bad_length_rejected_witness:
  "process_command demo_platform (demo_idle [2, 6, 1, 0, 0, 0]) =
     Inr ((demo_idle [2, 6, 1, 0, 0, 0])
            \<lparr>u_buf := [2, 1, 1, 0, 0, 0] @ replicate 250 0,
             io_log := [Tx [2, 1]],
             u_prod := 0\<rparr>)
   \<and> state (demo_idle [2, 6, 1, 0, 0, 0]) = ST_command_wait"
  using update_bad_length_rejected [of "demo_idle [2, 6, 1, 0, 0, 0]" demo_platform]
  by (simp add: demo_idle_def update_configure_def boot_def CMD_UPDATE_def ACK_BAD_COMMAND_def
      le32_def)

text \<open>
  C10: from \<^verbatim>\<open>ST_command_wait\<close>, an update command is accepted (the session enters
  \<^verbatim>\<open>ST_update\<close>) exactly when the declared frame length is 6 and the little-endian image
  length is a multiple of 4. The length is compared with nothing else: \<^verbatim>\<open>update.len\<close> becomes
  that length, whatever its relation to the 57344 bytes of the region, and \<^verbatim>\<open>update.cur\<close>
  starts at 0, the offset of the region base.
\<close>

theorem update_acceptance_condition:
  assumes "length (u_buf s) = 256" and "state s = ST_command_wait"
    and "u_buf s ! 0 = CMD_UPDATE"
  shows "\<exists>s'. process_command pf s = Inr s'
     \<and> (state s' = ST_update \<longleftrightarrow>
          u_buf s ! 1 = 6
          \<and> 4 dvd unat (le32 (u_buf s ! 2) (u_buf s ! 3) (u_buf s ! 4) (u_buf s ! 5)))
     \<and> (state s' = ST_update \<longrightarrow>
          update_len s' = le32 (u_buf s ! 2) (u_buf s ! 3) (u_buf s ! 4) (u_buf s ! 5)
          \<and> update_cur s' = 0 \<and> u_prod s' = 0)
     \<and> unat (FIRMWARE_END - FIRMWARE_START) = 57344"
proof (cases "u_buf s ! 1 = 6
    \<and> 4 dvd unat (le32 (u_buf s ! 2) (u_buf s ! 3) (u_buf s ! 4) (u_buf s ! 5))")
  case True
  then show ?thesis
    using assms process_command_update_accept [of s pf]
    by (simp add: FIRMWARE_END_def FIRMWARE_START_def)
next
  case False
  then show ?thesis
    using assms process_command_update_reject [of s pf] bad_command_eq [of s]
    by (auto simp add: FIRMWARE_END_def FIRMWARE_START_def)
qed

theorem update_acceptance_condition_witness:
  "\<exists>s'. process_command demo_platform (demo_idle [2, 6, 0, 0, 1, 0]) = Inr s'
     \<and> state s' = ST_update \<and> update_len s' = 65536 \<and> update_cur s' = 0
     \<and> unat (FIRMWARE_END - FIRMWARE_START) < unat (update_len s')"
  using update_acceptance_condition [of "demo_idle [2, 6, 0, 0, 1, 0]" demo_platform]
  by (auto simp add: demo_idle_def update_configure_def boot_def CMD_UPDATE_def le32_def)

text \<open>
  C6: when the buffer holds at least two bytes, the flush writes the largest even-length
  prefix of the buffered bytes (\<open>n\<close> is even, at most the fill-count, and less than two below
  it) to the flash at \<^verbatim>\<open>FIRMWARE_START + update.cur\<close>, advances \<^verbatim>\<open>update.cur\<close> by \<open>n\<close>, and
  leaves the odd byte, if there is one, at the front of the buffer with the fill-count reduced
  by \<open>n\<close>.
\<close>

theorem flush_writes_even_prefix:
  assumes "length (u_buf s) = 256" and "2 \<le> unat (u_prod s)" and "unat (u_prod s) \<le> 256"
  shows "\<exists>s' n. update_continue_flush s = Inr s'
     \<and> even n \<and> n \<le> unat (u_prod s) \<and> unat (u_prod s) < n + 2
     \<and> io_log s' = io_log s @ [Write (FIRMWARE_START + update_cur s) (take n (u_buf s))]
     \<and> (\<forall>k<n. flash s' (FIRMWARE_START + update_cur s + of_nat k) = u_buf s ! k)
     \<and> update_cur s' = update_cur s + of_nat n
     \<and> unat (u_prod s') = unat (u_prod s) - n
     \<and> take (unat (u_prod s')) (u_buf s') = drop n (take (unat (u_prod s)) (u_buf s))
     \<and> length (u_buf s') = 256 \<and> state s' = state s \<and> update_len s' = update_len s"
proof -
  let ?u = "unat (u_prod s)"
  let ?n = "2 * (?u div 2)"
  let ?r = "?u mod 2"
  let ?A = "FIRMWARE_START + update_cur s"
  define s' where "s' = s\<lparr>flash := (\<lambda>a. if unat (a - ?A) < ?n then u_buf s ! unat (a - ?A) else flash s a),
            io_log := io_log s @ [Write ?A (take ?n (u_buf s))],
            update_cur := update_cur s + of_nat ?n,
            u_prod := of_nat ?r,
            u_buf := take ?r (drop ?n (u_buf s)) @ drop ?r (u_buf s)\<rparr>"
  have c0: "update_continue_flush s = Inr s'"
    unfolding s'_def using assms by (intro update_continue_flush_eq) simp_all
  have c1: "even ?n" by simp
  have c2: "?n \<le> ?u" by simp
  have c3: "?u < ?n + 2" by presburger
  have c4: "io_log s' = io_log s @ [Write ?A (take ?n (u_buf s))]"
    by (simp add: s'_def)
  have c5: "\<forall>k<?n. flash s' (?A + of_nat k) = u_buf s ! k"
  proof (intro allI impI)
    fix k assume k: "k < ?n"
    then have "k < 2 ^ 32" using assms(3) by simp
    then have "unat (of_nat k :: u32) = k" by (rule unat_of_nat_u32)
    then show "flash s' (?A + of_nat k) = u_buf s ! k" using k by (simp add: s'_def)
  qed
  have c6: "update_cur s' = update_cur s + of_nat ?n"
    by (simp add: s'_def)
  have rn: "?r = ?u - ?n" by presburger
  have "unat (u_prod s') = ?r"
    by (simp add: s'_def unat_of_nat_u32)
  then have c7: "unat (u_prod s') = ?u - ?n"
    using rn by simp
  have len: "?n + ?r \<le> length (u_buf s)" using assms by simp
  have le4: "?r \<le> length (u_buf s) - ?n" using len by arith
  have "take ?r (u_buf s') = drop ?n (take ?u (u_buf s))"
    using len le4 by (simp add: s'_def drop_take rn [symmetric] min_absorb2)
  then have c8: "take (unat (u_prod s')) (u_buf s') = drop ?n (take ?u (u_buf s))"
    using \<open>unat (u_prod s') = ?r\<close> by simp
  have c9: "length (u_buf s') = 256"
    using assms(1) len le4 by (simp add: s'_def min_absorb2)
  have c10: "state s' = state s" by (simp add: s'_def)
  have c11: "update_len s' = update_len s" by (simp add: s'_def)
  show ?thesis
    by (rule exI [of _ s'], rule exI [of _ ?n]) (intro conjI; fact)
qed

theorem flush_writes_even_prefix_witness:
  "\<exists>s'. update_continue_flush
          ((demo_idle [10, 11, 12])\<lparr>state := ST_update, update_cur := 4\<rparr>) = Inr s'
     \<and> io_log s' = [Write (FIRMWARE_START + 4) [10, 11]]
     \<and> update_cur s' = 6 \<and> unat (u_prod s') = 1 \<and> take 1 (u_buf s') = [12]"
proof -
  let ?s = "(demo_idle [10, 11, 12])\<lparr>state := ST_update, update_cur := 4\<rparr>"
  have u: "unat (u_prod ?s) = 3" and b: "u_buf ?s = [10, 11, 12] @ replicate 253 0"
    and l: "io_log ?s = []" and c: "update_cur ?s = 4"
    by (simp_all add: demo_idle_def update_configure_def boot_def)
  have h: "length (u_buf ?s) = 256" "2 \<le> unat (u_prod ?s)" "unat (u_prod ?s) \<le> 256"
    by (simp_all add: demo_idle_def update_configure_def boot_def)
  from flush_writes_even_prefix [OF h] obtain s' n where
    r: "update_continue_flush ?s = Inr s'" "even n" "n \<le> 3" "3 < n + 2"
      "io_log s' = io_log ?s @ [Write (FIRMWARE_START + update_cur ?s) (take n (u_buf ?s))]"
      "update_cur s' = update_cur ?s + of_nat n"
      "unat (u_prod s') = unat (u_prod ?s) - n"
      "take (unat (u_prod s')) (u_buf s') = drop n (take (unat (u_prod ?s)) (u_buf ?s))"
    unfolding u by blast
  from r(2-4) have n: "n = 2" by presburger
  show ?thesis
    using r(1,5-8) unfolding n u b l c by (intro exI [of _ s']) simp
qed

end
